theory Spec2Isabelle
  imports Main "HOL-Library.Sublist" "HOL-Library.AList"
begin

section \<open>JavaScript values\<close>

text \<open>
  The values that flow through \<^verbatim>\<open>lib/graph.js\<close>: response bodies, parsed JSON, the
  two arguments of the user's callback, the access token and the app secret.  An object is
  the list of its own properties in insertion order.  \<open>JNum\<close> holds the integer-valued
  numbers of magnitude below \<open>2^53\<close> (the integers a JavaScript number holds exactly
  and prints in plain digits); strings are lists of code units below 256.
\<close>

datatype jsval =
    JUndefined
  | JNull
  | JBool bool
  | JNum int
  | JStr string
  | JArr "jsval list"
  | JObj "(string \<times> jsval) list"

text \<open>ToBoolean: what \<^verbatim>\<open>if (v)\<close>, \<^verbatim>\<open>!v\<close>, \<^verbatim>\<open>a && b\<close> and \<^verbatim>\<open>a || b\<close> test.\<close>

fun truthy :: "jsval \<Rightarrow> bool" where
  "truthy JUndefined = False"
| "truthy JNull = False"
| "truthy (JBool b) = b"
| "truthy (JNum n) = (n \<noteq> 0)"
| "truthy (JStr s) = (s \<noteq> [])"
| "truthy (JArr xs) = True"
| "truthy (JObj kvs) = True"

text \<open>Reading and writing an own property of an object literal.\<close>

definition obj_get :: "(string \<times> jsval) list \<Rightarrow> string \<Rightarrow> jsval" where
  "obj_get obj k = (case map_of obj k of None \<Rightarrow> JUndefined | Some v \<Rightarrow> v)"

definition obj_set :: "string \<Rightarrow> jsval \<Rightarrow> (string \<times> jsval) list \<Rightarrow> (string \<times> jsval) list" where
  "obj_set k v obj = AList.update k v obj"

text \<open>
  Reading a property such as \<^verbatim>\<open>json.error\<close> from a value other than
  \<^verbatim>\<open>null\<close> and \<^verbatim>\<open>undefined\<close> (on those the read throws, and the callers
  below write that case out): an object yields its property, a string, number, boolean or
  array has no property of these names.
\<close>

fun get_prop :: "jsval \<Rightarrow> string \<Rightarrow> jsval" where
  "get_prop (JObj kvs) k = obj_get kvs k"
| "get_prop v k = JUndefined"

text \<open>The exception a failed property access or a wrongly typed library argument throws.\<close>

definition TypeError :: jsval where
  "TypeError = JObj [(''name'', JStr ''TypeError'')]"

section \<open>Strings\<close>

text \<open>
  \<^verbatim>\<open>s.indexOf(p)\<close>: the first index at which \<open>p\<close> occurs in \<open>s\<close>, or \<open>-1\<close>.
\<close>

fun indexOf :: "string \<Rightarrow> string \<Rightarrow> int" where
  "indexOf [] p = (if p = [] then 0 else -1)"
| "indexOf (c # cs) p =
     (if prefix p (c # cs) then 0
      else (let i = indexOf cs p in if i = -1 then -1 else i + 1))"

definition js_space :: "char \<Rightarrow> bool" where
  "js_space c = (c \<in> set [CHR 0x09, CHR 0x0A, CHR 0x0B, CHR 0x0C, CHR 0x0D, CHR 0x20, CHR 0xA0])"

text \<open>\<^verbatim>\<open>s.trim()\<close>.\<close>

definition trim :: "string \<Rightarrow> string" where
  "trim s = rev (dropWhile js_space (rev (dropWhile js_space s)))"

text \<open>
  \<^verbatim>\<open>/access_token=([^&]*)/.exec(url)\<close>: \<open>None\<close> when there is no match, otherwise
  the first capture group of the leftmost match.
\<close>

fun exec_access_token :: "string \<Rightarrow> string option" where
  "exec_access_token [] = None"
| "exec_access_token (c # cs) =
     (if prefix ''access_token='' (c # cs)
      then Some (takeWhile (\<lambda>x. x \<noteq> CHR ''&'') (drop 13 (c # cs)))
      else exec_access_token cs)"

text \<open>Decimal digits of a number, for string concatenation.\<close>

fun dec :: "nat \<Rightarrow> string" where
  "dec n = (if n < 10 then [char_of (48 + n)] else dec (n div 10) @ [char_of (48 + n mod 10)])"

definition join :: "string \<Rightarrow> string list \<Rightarrow> string" where
  "join sep ss = (case ss of [] \<Rightarrow> [] | s # rest \<Rightarrow> s @ concat (map (\<lambda>t. sep @ t) rest))"

text \<open>ToString, as \<^verbatim>\<open>"access_token=" + v\<close> applies it.\<close>

fun to_str :: "jsval \<Rightarrow> string" where
  "to_str JUndefined = ''undefined''"
| "to_str JNull = ''null''"
| "to_str (JBool b) = (if b then ''true'' else ''false'')"
| "to_str (JNum n) = (if n < 0 then ''-'' @ dec (nat (- n)) else dec (nat n))"
| "to_str (JStr s) = s"
| "to_str (JArr xs) =
     join '','' (map (\<lambda>x. if x = JUndefined \<or> x = JNull then [] else to_str x) xs)"
| "to_str (JObj kvs) = ''[object Object]''"

section \<open>The client and the libraries it calls\<close>

text \<open>The private fields of class \<^verbatim>\<open>Graph\<close> that the request pipeline reads.\<close>

record graph =
  accessToken :: jsval
  appSecret :: jsval
  graphUrl :: string
  graphVersion :: string
  requestOptions :: "(string \<times> jsval) list"

text \<open>\<^verbatim>\<open>new Graph()\<close>: the field initialisers of the class.\<close>

definition new_Graph :: graph where
  "new_Graph = \<lparr>accessToken = JUndefined, appSecret = JUndefined,
     graphUrl = ''https://graph.facebook.com'', graphVersion = ''2.9'', requestOptions = []\<rparr>"

text \<open>
  The modules required at the top of the file are not part of the repository; the model
  takes them as parameters.  \<open>JSON_parse\<close> is \<^verbatim>\<open>JSON.parse\<close>, \<open>url_query\<close> is
  \<^verbatim>\<open>url.parse(s, true).query\<close> (both return \<open>Inl e\<close> when they throw \<open>e\<close>),
  \<open>hmac_hex\<close> is \<^verbatim>\<open>crypto.createHmac('sha256', key).update(data).digest('hex')\<close> on
  strings, and \<open>qs_stringify\<close> is \<^verbatim>\<open>qs.stringify\<close>.
\<close>

record node =
  JSON_parse :: "string \<Rightarrow> jsval + jsval"
  url_query :: "string \<Rightarrow> jsval + jsval"
  hmac_hex :: "string \<Rightarrow> string \<Rightarrow> string"
  qs_stringify :: "(string \<times> jsval) list \<Rightarrow> string"

section \<open>GraphStream: building the URL\<close>

text \<open>\<^verbatim>\<open>~url.indexOf('?') ? '&' : '?'\<close>\<close>

definition qsep :: "string \<Rightarrow> string" where
  "qsep url = (if indexOf url ''?'' \<noteq> -1 then ''&'' else ''?'')"

text \<open>
  \<^verbatim>\<open>if (url.charAt(0) !== '/' && url.substr(0,4) !== 'http') url = '/' + url\<close>
\<close>

definition leading_slash :: "string \<Rightarrow> string" where
  "leading_slash url =
     (if take 1 url \<noteq> ''/'' \<and> take 4 url \<noteq> ''http'' then ''/'' @ url else url)"

text \<open>
  \<^verbatim>\<open>cleanUrl(url)\<close>.  The crypto module throws a TypeError when the key or the data is
  neither a string nor a buffer, so a truthy secret or token that is not a string makes the
  call throw (\<open>Inl\<close>).
\<close>

definition cleanUrl :: "node \<Rightarrow> graph \<Rightarrow> string \<Rightarrow> jsval + string" where
  "cleanUrl nd g url0 =
     (let url = trim url0;
          results = exec_access_token url;
          sessionAccessToken = (case results of Some t \<Rightarrow> JStr t | None \<Rightarrow> accessToken g);
          url = leading_slash url;
          url = (if truthy (accessToken g) \<and> indexOf url ''access_token='' = -1
                 then url @ qsep url @ ''access_token='' @ to_str (accessToken g)
                 else url)
      in if truthy sessionAccessToken \<and> truthy (appSecret g)
            \<and> indexOf url ''appsecret_proof'' = -1
         then (case (appSecret g, sessionAccessToken) of
                 (JStr key, JStr tok) \<Rightarrow>
                   Inr (url @ qsep url @ ''appsecret_proof='' @ hmac_hex nd key tok)
               | _ \<Rightarrow> Inl TypeError)
         else Inr url)"

text \<open>\<^verbatim>\<open>prepareUrl(url)\<close>\<close>

definition prepareUrl :: "node \<Rightarrow> graph \<Rightarrow> string \<Rightarrow> jsval + string" where
  "prepareUrl nd g url0 =
     (case cleanUrl nd g url0 of
        Inl e \<Rightarrow> Inl e
      | Inr url \<Rightarrow>
          Inr (if take 4 url \<noteq> ''http''
               then graphUrl g @ ''/v'' @ graphVersion g @ url
               else url))"

section \<open>GraphStream: request options\<close>

datatype http_method = GET | POST

definition method_name :: "http_method \<Rightarrow> string" where
  "method_name m = (case m of GET \<Rightarrow> ''GET'' | POST \<Rightarrow> ''POST'')"

text \<open>
  The constructor of \<^verbatim>\<open>GraphStream\<close> up to the point where the request is handed to
  the transport: the options object it passes to \<^verbatim>\<open>request\<close>.  \<^verbatim>\<open>post()\<close> adds the
  form-encoded body before sending.
\<close>

definition GraphStream_options ::
  "node \<Rightarrow> graph \<Rightarrow> http_method \<Rightarrow> string \<Rightarrow> (string \<times> jsval) list
     \<Rightarrow> jsval + (string \<times> jsval) list" where
  "GraphStream_options nd g m url0 postData =
     (case prepareUrl nd g url0 of
        Inl e \<Rightarrow> Inl e
      | Inr url \<Rightarrow>
          (let options = requestOptions g;
               options = obj_set ''encoding''
                           (if truthy (obj_get options ''encoding'')
                            then obj_get options ''encoding'' else JStr ''utf-8'') options;
               options = obj_set ''method'' (JStr (method_name m)) options;
               options = obj_set ''uri'' (JStr url) options;
               options = obj_set ''followRedirect'' (JBool False) options
           in Inr (case m of
                     GET \<Rightarrow> options
                   | POST \<Rightarrow> obj_set ''body'' (JStr (qs_stringify nd postData)) options)))"

section \<open>GraphStream: handling the response\<close>

text \<open>
  What one handler run does that is visible outside: the library parsers it called, the
  invocations \<open>(err, res)\<close> of the user's callback in order, and the exception that left
  the handler, if any.
\<close>

datatype lib_call = Call_JSON_parse string | Call_url_parse string

record effects =
  parses :: "lib_call list"
  callbacks :: "(jsval \<times> jsval) list"
  thrown :: "jsval option"

definition parse_error :: "jsval \<Rightarrow> jsval" where
  "parse_error e = JObj [(''message'', JStr ''Error parsing json''), (''exception'', e)]"

definition request_error :: "jsval \<Rightarrow> jsval" where
  "request_error e =
     JObj [(''message'', JStr ''Error processing https request''), (''exception'', e)]"

text \<open>
  \<^verbatim>\<open>end(body)\<close>, named \<open>stream_end\<close> because \<open>end\<close> is a keyword here.  A body that
  is neither a string nor truthy has no \<^verbatim>\<open>indexOf\<close> method, so the first line of the
  \<^verbatim>\<open>try\<close> block throws a TypeError, which the \<^verbatim>\<open>catch\<close> turns into the parse
  error.
\<close>

definition stream_end :: "node \<Rightarrow> jsval \<Rightarrow> effects" where
  "stream_end nd body =
     (let json0 = (case body of JStr s \<Rightarrow> JNull | _ \<Rightarrow> body);
          (log, err, json) =
            (if \<not> truthy json0 then
               (case body of
                  JStr s \<Rightarrow>
                    (if indexOf s ''{'' \<noteq> -1 \<and> indexOf s ''}'' \<noteq> -1
                     then (case JSON_parse nd s of
                             Inr v \<Rightarrow> ([Call_JSON_parse s], JNull, v)
                           | Inl e \<Rightarrow> ([Call_JSON_parse s], parse_error e, json0))
                     else (let b1 = (if indexOf s ''='' = -1 then ''data='' @ s else s);
                               b2 = (if take 1 b1 \<noteq> ''?'' then ''?'' @ b1 else b1)
                           in case url_query nd b2 of
                                Inr v \<Rightarrow> ([Call_url_parse b2], JNull, v)
                              | Inl e \<Rightarrow> ([Call_url_parse b2], parse_error e, json0)))
                | _ \<Rightarrow> ([], parse_error TypeError, json0))
             else ([], JNull, json0));
          err = (if \<not> truthy err \<and> (truthy json \<and> truthy (get_prop json ''error''))
                 then get_prop json ''error'' else err)
      in \<lparr>parses = log, callbacks = [(err, json)], thrown = None\<rparr>)"

text \<open>The response object as far as the handlers read it: its headers.\<close>

record response =
  headers :: "(string \<times> string) list"

text \<open>
  The function \<^verbatim>\<open>get()\<close> passes to \<^verbatim>\<open>request.get\<close>, called with \<open>(err, res, body)\<close>;
  \<open>None\<close> is an undefined \<open>res\<close>.  Reading \<^verbatim>\<open>.indexOf\<close> of a header that is absent
  throws.
\<close>

definition get_response :: "node \<Rightarrow> jsval \<Rightarrow> response option \<Rightarrow> jsval \<Rightarrow> effects" where
  "get_response nd err res body =
     (if truthy err
      then \<lparr>parses = [], callbacks = [(request_error err, JNull)], thrown = None\<rparr>
      else (case res of
              None \<Rightarrow> \<lparr>parses = [], callbacks = [], thrown = Some TypeError\<rparr>
            | Some r \<Rightarrow>
                (case map_of (headers r) ''content-type'' of
                   None \<Rightarrow> \<lparr>parses = [], callbacks = [], thrown = Some TypeError\<rparr>
                 | Some ct \<Rightarrow>
                     stream_end nd
                       (if indexOf ct ''image'' \<noteq> -1
                        then JObj [(''image'', JBool True),
                                   (''location'', (case map_of (headers r) ''location'' of
                                                     None \<Rightarrow> JUndefined
                                                   | Some l \<Rightarrow> JStr l))]
                        else body))))"

text \<open>The function \<^verbatim>\<open>post()\<close> passes to \<^verbatim>\<open>request\<close>.\<close>

definition post_response :: "node \<Rightarrow> jsval \<Rightarrow> response option \<Rightarrow> jsval \<Rightarrow> effects" where
  "post_response nd err res body =
     (if truthy err
      then \<lparr>parses = [], callbacks = [(request_error err, JNull)], thrown = None\<rparr>
      else stream_end nd body)"

text \<open>The listener both wrappers register with \<^verbatim>\<open>.on('error', ...)\<close>.\<close>

definition on_error :: "jsval \<Rightarrow> effects" where
  "on_error err = \<lparr>parses = [], callbacks = [(request_error err, JNull)], thrown = None\<rparr>"

text \<open>
  What the transport can deliver to a stream: a call of the function given to
  \<^verbatim>\<open>request\<close>, or an \<^verbatim>\<open>'error'\<close> event.
\<close>

datatype transport_event =
    Completed jsval "response option" jsval
  | ErrorEvent jsval

definition deliver :: "node \<Rightarrow> http_method \<Rightarrow> transport_event \<Rightarrow> effects" where
  "deliver nd m ev =
     (case ev of
        Completed err res body \<Rightarrow>
          (case m of GET \<Rightarrow> get_response nd err res body
                   | POST \<Rightarrow> post_response nd err res body)
      | ErrorEvent err \<Rightarrow> on_error err)"

section \<open>Graph: get and extendAccessToken\<close>

text \<open>
  \<^verbatim>\<open>Graph.get(url, params, callback)\<close> for a string \<open>url\<close>: the request it issues.
  \<open>None\<close> is a call without \<open>params\<close> (or with a falsy one).
\<close>

definition Graph_get ::
  "node \<Rightarrow> graph \<Rightarrow> string \<Rightarrow> (string \<times> jsval) list option
     \<Rightarrow> jsval + (string \<times> jsval) list" where
  "Graph_get nd g url params =
     (let url = (case params of
                   None \<Rightarrow> url
                 | Some ps \<Rightarrow> url @ qsep url @ qs_stringify nd ps)
      in GraphStream_options nd g GET url [])"

text \<open>
  A wrapper callback that may change the client before it calls the user's callback runs
  once for every invocation the stream makes; an exception in it leaves the handler.
\<close>

fun run_callbacks ::
  "(graph \<Rightarrow> jsval \<Rightarrow> jsval \<Rightarrow> jsval + graph) \<Rightarrow> graph \<Rightarrow> (jsval \<times> jsval) list
     \<Rightarrow> graph \<times> (jsval \<times> jsval) list \<times> jsval option" where
  "run_callbacks k g [] = (g, [], None)"
| "run_callbacks k g ((err, res) # rest) =
     (case k g err res of
        Inl e \<Rightarrow> (g, [], Some e)
      | Inr g' \<Rightarrow>
          (case run_callbacks k g' rest of
             (g'', done, r) \<Rightarrow> (g'', (err, res) # done, r)))"

text \<open>\<^verbatim>\<open>self.setAccessToken(res.access_token)\<close>: reading the property of null or undefined throws.\<close>

definition set_token_from :: "graph \<Rightarrow> jsval \<Rightarrow> jsval + graph" where
  "set_token_from g res =
     (if res = JNull \<or> res = JUndefined then Inl TypeError
      else Inr (g\<lparr>accessToken := get_prop res ''access_token''\<rparr>))"

text \<open>The first two statements of both \<^verbatim>\<open>extendAccessToken\<close> methods.\<close>

definition exchange_params :: "graph \<Rightarrow> (string \<times> jsval) list \<Rightarrow> (string \<times> jsval) list" where
  "exchange_params g params =
     (let params = obj_set ''grant_type'' (JStr ''fb_exchange_token'') params
      in obj_set ''fb_exchange_token''
           (if truthy (obj_get params ''access_token'')
            then obj_get params ''access_token'' else accessToken g) params)"

record call_outcome =
  issued :: "(string \<times> jsval) list option"
  graph_after :: graph
  reported :: "(jsval \<times> jsval) list"
  raised :: "jsval option"

text \<open>
  \<^verbatim>\<open>Graph.extendAccessToken(params, callback)\<close>, run until the transport has delivered
  \<open>ev\<close>: the request issued (\<open>None\<close> when building it threw), the client afterwards, and
  the invocations of \<open>callback\<close>.
\<close>

definition extendAccessToken ::
  "node \<Rightarrow> graph \<Rightarrow> (string \<times> jsval) list \<Rightarrow> transport_event \<Rightarrow> call_outcome" where
  "extendAccessToken nd g params0 ev =
     (let params = exchange_params g params0
      in case Graph_get nd g ''/oauth/access_token'' (Some params) of
           Inl e \<Rightarrow> \<lparr>issued = None, graph_after = g, reported = [], raised = Some e\<rparr>
         | Inr opts \<Rightarrow>
             (let eff = deliver nd GET ev
              in case run_callbacks
                        (\<lambda>g err res.
                           if \<not> truthy err \<and> \<not> truthy (obj_get params ''access_token'')
                           then set_token_from g res else Inr g)
                        g (callbacks eff) of
                   (g', invocations, r) \<Rightarrow>
                     \<lparr>issued = Some opts, graph_after = g', reported = invocations,
                      raised = (case thrown eff of Some e \<Rightarrow> Some e | None \<Rightarrow> r)\<rparr>))"

text \<open>
  The promise \<^verbatim>\<open>util.promisify\<close> makes of a callback-style call: settled by the first
  invocation of the callback, pending while there is none.
\<close>

datatype settled = Pending | Rejected jsval | Resolved jsval

definition promisify :: "(jsval \<times> jsval) list \<Rightarrow> settled" where
  "promisify invocations =
     (case invocations of
        [] \<Rightarrow> Pending
      | (err, res) # _ \<Rightarrow> if truthy err then Rejected err else Resolved res)"

record promise_outcome =
  p_issued :: "(string \<times> jsval) list option"
  p_graph_after :: graph
  result :: settled

text \<open>\<^verbatim>\<open>PromiseGraph.extendAccessToken(params)\<close>, run until the transport has delivered \<open>ev\<close>.\<close>

definition Promise_extendAccessToken ::
  "node \<Rightarrow> graph \<Rightarrow> (string \<times> jsval) list \<Rightarrow> transport_event \<Rightarrow> promise_outcome" where
  "Promise_extendAccessToken nd g params0 ev =
     (let params = exchange_params g params0
      in case Graph_get nd g ''/oauth/access_token'' (Some params) of
           Inl e \<Rightarrow> \<lparr>p_issued = None, p_graph_after = g, result = Rejected e\<rparr>
         | Inr opts \<Rightarrow>
             (case promisify (callbacks (deliver nd GET ev)) of
                Pending \<Rightarrow> \<lparr>p_issued = Some opts, p_graph_after = g, result = Pending\<rparr>
              | Rejected e \<Rightarrow> \<lparr>p_issued = Some opts, p_graph_after = g, result = Rejected e\<rparr>
              | Resolved res \<Rightarrow>
                  (if truthy (obj_get params ''access_token'')
                   then (case set_token_from g res of
                           Inl e \<Rightarrow> \<lparr>p_issued = Some opts, p_graph_after = g,
                                      result = Rejected e\<rparr>
                         | Inr g' \<Rightarrow> \<lparr>p_issued = Some opts, p_graph_after = g',
                                      result = Resolved res\<rparr>)
                   else \<lparr>p_issued = Some opts, p_graph_after = g, result = Resolved res\<rparr>)))"

section \<open>Counting a parameter in a URL\<close>

text \<open>
  The number of places at which the non-empty text \<open>p\<close> occurs in \<open>s\<close>; the properties
  of the built URL are stated with it.
\<close>

fun occurrences :: "string \<Rightarrow> string \<Rightarrow> nat" where
  "occurrences p [] = 0"
| "occurrences p (c # cs) = (if prefix p (c # cs) then 1 else 0) + occurrences p cs"

section \<open>Stand-ins for the libraries\<close>

text \<open>
  To run the model on concrete inputs the parameters need values.  These stand-ins are
  used for that only; every general theorem below holds for all libraries.  The JSON
  reader knows the documents listed and rejects every other text; the query reader drops
  the leading \<open>?\<close> and splits at \<open>&\<close> and at the first \<open>=\<close>; the digest writes the bytes
  of key and data in hexadecimal; the form encoder joins \<open>key=value\<close> with \<open>&\<close>.
\<close>

definition SyntaxError :: jsval where
  "SyntaxError = JObj [(''name'', JStr ''SyntaxError'')]"

definition known_documents :: "(string \<times> jsval) list" where
  "known_documents =
     [(''{\"id\":\"1\"}'', JObj [(''id'', JStr ''1'')]),
      (''{\"error\":{\"message\":\"bad\"}}'',
         JObj [(''error'', JObj [(''message'', JStr ''bad'')])])]"

fun split_on :: "char \<Rightarrow> string \<Rightarrow> string list" where
  "split_on c [] = [[]]"
| "split_on c (x # xs) =
     (if x = c then [] # split_on c xs
      else (case split_on c xs of [] \<Rightarrow> [[x]] | w # ws \<Rightarrow> (x # w) # ws))"

definition key_value :: "string \<Rightarrow> string \<times> jsval" where
  "key_value s =
     (takeWhile (\<lambda>x. x \<noteq> CHR ''='') s, JStr (drop 1 (dropWhile (\<lambda>x. x \<noteq> CHR ''='') s)))"

definition hex_byte :: "char \<Rightarrow> string" where
  "hex_byte c =
     [''0123456789abcdef'' ! (of_char c div 16), ''0123456789abcdef'' ! (of_char c mod 16)]"

definition sample_node :: node where
  "sample_node =
     \<lparr>JSON_parse = (\<lambda>s. case map_of known_documents s of
                            None \<Rightarrow> Inl SyntaxError | Some v \<Rightarrow> Inr v),
      url_query = (\<lambda>s. Inr (JObj (map key_value
                            (filter (\<lambda>w. w \<noteq> []) (split_on (CHR ''&'') (drop 1 s)))))),
      hmac_hex = (\<lambda>key data. concat (map hex_byte (key @ data))),
      qs_stringify = (\<lambda>kvs. join ''&'' (map (\<lambda>(k, v). k @ ''='' @ to_str v) kvs))\<rparr>"

text \<open>Sample inputs: a token response of the OAuth endpoint, and the headers of an image redirect.\<close>

definition token_response :: transport_event where
  "token_response =
     Completed JNull (Some \<lparr>headers = [(''content-type'', ''text/plain; charset=UTF-8'')]\<rparr>)
       (JStr ''access_token=new&expires=5'')"

definition image_headers :: response where
  "image_headers =
     \<lparr>headers = [(''content-type'', ''image/jpeg''), (''location'', ''https://cdn.example/p.jpg'')]\<rparr>"

section \<open>Facts about the string operations\<close>

lemma indexOf_ge: "- 1 \<le> indexOf s p"
  by (induction s) (auto simp: Let_def)

lemma indexOf_Cons_none:
  "(indexOf (c # cs) p = - 1) = (\<not> prefix p (c # cs) \<and> indexOf cs p = - 1)"
  using indexOf_ge [of cs p] by (auto simp: Let_def)

lemma indexOf_char: "(indexOf s [c] = - 1) = (c \<notin> set s)"
  by (induction s) (auto simp: indexOf_Cons_none simp del: indexOf.simps(2))

lemma indexOf_occurrences: "p \<noteq> [] \<Longrightarrow> (indexOf s p = - 1) = (occurrences p s = 0)"
  by (induction s) (auto simp: indexOf_Cons_none simp del: indexOf.simps(2))

lemma exec_none: "(exec_access_token s = None) = (indexOf s ''access_token='' = - 1)"
  by (induction s) (auto simp: indexOf_Cons_none simp del: indexOf.simps(2))

text \<open>A text that lacks the character \<open>c\<close> cannot begin before an occurrence of \<open>c\<close> and end after it.\<close>

lemma prefix_across: "c \<notin> set p \<Longrightarrow> prefix p (xs @ c # ys) = prefix p xs"
  by (auto simp: prefix_append prefix_Cons)

lemma prefix_across_Cons: "c \<notin> set p \<Longrightarrow> prefix p (x # xs @ c # ys) = prefix p (x # xs)"
  using prefix_across [of c p "x # xs" ys] by simp

lemma prefix_at_sep: "c \<notin> set p \<Longrightarrow> p \<noteq> [] \<Longrightarrow> \<not> prefix p (c # ys)"
  using prefix_across [of c p "[]" ys] by simp

lemma occurrences_across:
  "c \<notin> set p \<Longrightarrow> p \<noteq> [] \<Longrightarrow> occurrences p (xs @ c # ys) = occurrences p xs + occurrences p ys"
  by (induction xs) (simp_all add: prefix_across_Cons prefix_at_sep)

lemma occurrences_lacking: "c \<in> set p \<Longrightarrow> c \<notin> set s \<Longrightarrow> occurrences p s = 0"
proof (induction s)
  case Nil
  then show ?case by simp
next
  case (Cons a s)
  have "\<not> prefix p (a # s)"
    using Cons.prems set_mono_prefix [of p "a # s"] by blast
  with Cons show ?case by simp
qed

lemma exec_skip:
  "\<not> prefix ''access_token='' (c # cs) \<Longrightarrow> exec_access_token (c # cs) = exec_access_token cs"
  by (simp only: exec_access_token.simps if_False)

lemma exec_across:
  "indexOf xs ''access_token='' = - 1 \<Longrightarrow> c \<notin> set ''access_token=''
     \<Longrightarrow> exec_access_token (xs @ c # ys) = exec_access_token ys"
proof (induction xs)
  case Nil
  have "\<not> prefix ''access_token='' (c # ys)"
    by (rule prefix_at_sep [OF Nil.prems(2)]) simp
  then have "exec_access_token (c # ys) = exec_access_token ys" by (rule exec_skip)
  then show ?case by (simp only: append_Nil)
next
  case (Cons x xs)
  have both: "\<not> prefix ''access_token='' (x # xs) \<and> indexOf xs ''access_token='' = - 1"
    using indexOf_Cons_none [of x xs "''access_token=''"] Cons.prems(1) by blast
  from both have np: "\<not> prefix ''access_token='' (x # xs)" ..
  from both have rest: "indexOf xs ''access_token='' = - 1" ..
  have "\<not> prefix ''access_token='' (x # xs @ c # ys)"
    unfolding prefix_across_Cons [OF Cons.prems(2)] by (rule np)
  then have "exec_access_token (x # xs @ c # ys) = exec_access_token (xs @ c # ys)"
    by (rule exec_skip)
  then show ?case using Cons.IH [OF rest Cons.prems(2)] by (simp only: append_Cons)
qed

lemma indexOf_leading_slash:
  "p \<noteq> [] \<Longrightarrow> hd p \<noteq> CHR ''/'' \<Longrightarrow> (indexOf (leading_slash u) p = - 1) = (indexOf u p = - 1)"
  by (cases p) (auto simp: leading_slash_def indexOf_Cons_none prefix_Cons simp del: indexOf.simps(2))

lemma qsep_leading_slash:
  "qsep (leading_slash u) = (if CHR ''?'' \<in> set u then ''&'' else ''?'')"
  using indexOf_leading_slash [of "''?''" u] by (simp add: qsep_def indexOf_char)

lemma qsep_after_sep: "qsep (xs @ qsep xs @ ys) = ''&''"
  by (simp add: qsep_def indexOf_char)

lemma dropWhile_keeps_end:
  "\<not> P c \<Longrightarrow> \<exists>ys. dropWhile P (xs @ [c]) = ys @ [c]"
  by (induction xs) auto

lemma trim_keeps_head:
  assumes "\<not> js_space c"
  shows "\<exists>t. trim (c # cs) = c # t"
proof -
  obtain ys where ys: "dropWhile js_space (rev cs @ [c]) = ys @ [c]"
    using dropWhile_keeps_end [of js_space c "rev cs"] assms by blast
  have "dropWhile js_space (c # cs) = c # cs"
    using assms by simp
  then have "trim (c # cs) = rev (dropWhile js_space (rev cs @ [c]))"
    by (simp only: trim_def rev.simps)
  also have "\<dots> = c # rev ys"
    by (simp only: ys rev_append rev.simps append.simps)
  finally show ?thesis by blast
qed

lemma obj_get_obj_set: "obj_get (obj_set k v obj) k' = (if k' = k then v else obj_get obj k')"
  by (simp add: obj_get_def obj_set_def update_conv')

section \<open>What the callback receives\<close>

lemma end_invokes_once:
  "\<exists>err res. callbacks (stream_end nd body) = [(err, res)]"
  by (simp add: stream_end_def Let_def split: jsval.splits sum.splits prod.splits)

lemma end_never_throws: "thrown (stream_end nd body) = None"
  by (simp add: stream_end_def Let_def split: jsval.splits sum.splits prod.splits)

text \<open>
  Claim C1, as the code has it.  Every run of \<^verbatim>\<open>end\<close> invokes the callback once and lets
  no exception out, and its two arguments are these.  For a string body with both braces
  that \<^verbatim>\<open>JSON.parse\<close> reads as \<open>v\<close>, and for a string body without them that the
  query reader reads as \<open>v\<close>, the result argument is \<open>v\<close>; for a body that is not a
  string and is truthy, the result argument is the body itself.  In these three cases the
  error argument is the \<open>error\<close> property of the result when the result is truthy and
  that property is truthy, so both arguments are set, and null otherwise.  When the
  parser throws \<open>e\<close>, the arguments are the parse error with \<open>e\<close> and null; for a falsy
  body that is not a string they are the parse error with the TypeError and that body.
  After a transport failure each handler passes the request error and null.
\<close>

theorem end_callback_arguments:
  "(\<forall>s v. body = JStr s \<and> CHR ''{'' \<in> set s \<and> CHR ''}'' \<in> set s \<and> JSON_parse nd s = Inr v \<longrightarrow>
       callbacks (stream_end nd body)
         = [(if truthy v \<and> truthy (get_prop v ''error'') then get_prop v ''error'' else JNull, v)])
   \<and> (\<forall>s e. body = JStr s \<and> CHR ''{'' \<in> set s \<and> CHR ''}'' \<in> set s \<and> JSON_parse nd s = Inl e \<longrightarrow>
       callbacks (stream_end nd body) = [(parse_error e, JNull)])
   \<and> (\<forall>s v. body = JStr s \<and> \<not> (CHR ''{'' \<in> set s \<and> CHR ''}'' \<in> set s)
          \<and> url_query nd (if CHR ''='' \<notin> set s then ''?data='' @ s
                            else if take 1 s = ''?'' then s else ''?'' @ s) = Inr v \<longrightarrow>
       callbacks (stream_end nd body)
         = [(if truthy v \<and> truthy (get_prop v ''error'') then get_prop v ''error'' else JNull, v)])
   \<and> (\<forall>s e. body = JStr s \<and> \<not> (CHR ''{'' \<in> set s \<and> CHR ''}'' \<in> set s)
          \<and> url_query nd (if CHR ''='' \<notin> set s then ''?data='' @ s
                            else if take 1 s = ''?'' then s else ''?'' @ s) = Inl e \<longrightarrow>
       callbacks (stream_end nd body) = [(parse_error e, JNull)])
   \<and> ((\<forall>s. body \<noteq> JStr s) \<and> truthy body \<longrightarrow>
       callbacks (stream_end nd body)
         = [(if truthy (get_prop body ''error'') then get_prop body ''error'' else JNull, body)])
   \<and> ((\<forall>s. body \<noteq> JStr s) \<and> \<not> truthy body \<longrightarrow>
       callbacks (stream_end nd body) = [(parse_error TypeError, body)])
   \<and> thrown (stream_end nd body) = None
   \<and> (truthy e \<longrightarrow>
         callbacks (get_response nd e r b) = [(request_error e, JNull)]
       \<and> callbacks (post_response nd e r b) = [(request_error e, JNull)])
   \<and> callbacks (on_error e) = [(request_error e, JNull)]"
proof -
  have 1: "\<And>s v. CHR ''{'' \<in> set s \<and> CHR ''}'' \<in> set s \<and> JSON_parse nd s = Inr v \<Longrightarrow>
       callbacks (stream_end nd (JStr s))
         = [(if truthy v \<and> truthy (get_prop v ''error'') then get_prop v ''error'' else JNull, v)]"
    by (simp add: stream_end_def indexOf_char)
  have 2: "\<And>s e. CHR ''{'' \<in> set s \<and> CHR ''}'' \<in> set s \<and> JSON_parse nd s = Inl e \<Longrightarrow>
       callbacks (stream_end nd (JStr s)) = [(parse_error e, JNull)]"
    by (simp add: stream_end_def indexOf_char parse_error_def)
  have 3: "\<And>s v. \<not> (CHR ''{'' \<in> set s \<and> CHR ''}'' \<in> set s)
          \<and> url_query nd (if CHR ''='' \<notin> set s then ''?data='' @ s
                            else if take 1 s = ''?'' then s else ''?'' @ s) = Inr v \<Longrightarrow>
       callbacks (stream_end nd (JStr s))
         = [(if truthy v \<and> truthy (get_prop v ''error'') then get_prop v ''error'' else JNull, v)]"
    by (auto simp: stream_end_def Let_def indexOf_char split: if_splits)
  have 4: "\<And>s e. \<not> (CHR ''{'' \<in> set s \<and> CHR ''}'' \<in> set s)
          \<and> url_query nd (if CHR ''='' \<notin> set s then ''?data='' @ s
                            else if take 1 s = ''?'' then s else ''?'' @ s) = Inl e \<Longrightarrow>
       callbacks (stream_end nd (JStr s)) = [(parse_error e, JNull)]"
    by (auto simp: stream_end_def Let_def indexOf_char parse_error_def split: if_splits)
  have 5: "(\<forall>s. body \<noteq> JStr s) \<and> truthy body \<longrightarrow>
       callbacks (stream_end nd body)
         = [(if truthy (get_prop body ''error'') then get_prop body ''error'' else JNull, body)]"
    by (cases body) (simp_all add: stream_end_def)
  have 6: "(\<forall>s. body \<noteq> JStr s) \<and> \<not> truthy body \<longrightarrow>
       callbacks (stream_end nd body) = [(parse_error TypeError, body)]"
    by (cases body) (simp_all add: stream_end_def parse_error_def)
  have 7: "thrown (stream_end nd body) = None"
    by (rule end_never_throws)
  have 8: "truthy e \<longrightarrow>
         callbacks (get_response nd e r b) = [(request_error e, JNull)]
       \<and> callbacks (post_response nd e r b) = [(request_error e, JNull)]"
    by (simp add: get_response_def post_response_def)
  have 9: "callbacks (on_error e) = [(request_error e, JNull)]"
    by (simp add: on_error_def)
  from 1 2 3 4 5 6 7 8 9 show ?thesis by blast
qed

lemma sample_documents:
  "JSON_parse sample_node ''{oops}'' = Inl SyntaxError
   \<and> JSON_parse sample_node ''{\"id\":\"1\"}'' = Inr (JObj [(''id'', JStr ''1'')])
   \<and> url_query sample_node ''?data=true'' = Inr (JObj [(''data'', JStr ''true'')])"
  by code_simp

theorem end_callback_arguments_witness:
  "truthy (JStr ''ETIMEDOUT'')
   \<and> callbacks (get_response sample_node (JStr ''ETIMEDOUT'') None JUndefined)
       = [(request_error (JStr ''ETIMEDOUT''), JNull)]
   \<and> JSON_parse sample_node ''{oops}'' = Inl SyntaxError
   \<and> callbacks (stream_end sample_node (JStr ''{oops}'')) = [(parse_error SyntaxError, JNull)]
   \<and> JSON_parse sample_node ''{\"id\":\"1\"}'' = Inr (JObj [(''id'', JStr ''1'')])
   \<and> callbacks (stream_end sample_node (JStr ''{\"id\":\"1\"}''))
       = [(JNull, JObj [(''id'', JStr ''1'')])]
   \<and> url_query sample_node ''?data=true'' = Inr (JObj [(''data'', JStr ''true'')])
   \<and> callbacks (stream_end sample_node (JStr ''true'')) = [(JNull, JObj [(''data'', JStr ''true'')])]
   \<and> callbacks (stream_end sample_node (JObj [(''error'', JStr ''denied''), (''code'', JNum 190)]))
       = [(JStr ''denied'', JObj [(''error'', JStr ''denied''), (''code'', JNum 190)])]
   \<and> callbacks (stream_end sample_node JUndefined) = [(parse_error TypeError, JUndefined)]"
proof -
  note d = sample_documents
  have a: "callbacks (get_response sample_node (JStr ''ETIMEDOUT'') None JUndefined)
       = [(request_error (JStr ''ETIMEDOUT''), JNull)]
     \<and> callbacks (stream_end sample_node (JStr ''{oops}'')) = [(parse_error SyntaxError, JNull)]"
    using end_callback_arguments
            [of "JStr ''{oops}''" sample_node "JStr ''ETIMEDOUT''" None JUndefined] d
    by simp
  have b: "callbacks (stream_end sample_node (JStr ''{\"id\":\"1\"}''))
       = [(JNull, JObj [(''id'', JStr ''1'')])]"
    using end_callback_arguments [of "JStr ''{\"id\":\"1\"}''" sample_node] d
    by (simp add: obj_get_def)
  have c: "callbacks (stream_end sample_node (JStr ''true'')) = [(JNull, JObj [(''data'', JStr ''true'')])]"
    using end_callback_arguments [of "JStr ''true''" sample_node] d
    by (simp add: obj_get_def)
  have e: "callbacks (stream_end sample_node (JObj [(''error'', JStr ''denied''), (''code'', JNum 190)]))
       = [(JStr ''denied'', JObj [(''error'', JStr ''denied''), (''code'', JNum 190)])]"
    using end_callback_arguments
            [of "JObj [(''error'', JStr ''denied''), (''code'', JNum 190)]" sample_node]
    by (simp add: obj_get_def)
  have f: "callbacks (stream_end sample_node JUndefined) = [(parse_error TypeError, JUndefined)]"
    using end_callback_arguments [of JUndefined sample_node]
    by simp
  from a b c e f d show ?thesis by simp
qed

text \<open>
  Claim C1, as the specification states it, fails on a body that carries an error: the
  callback gets the error object and the parsed body together.
\<close>

theorem error_with_result_counterexample:
  "callbacks (stream_end sample_node (JObj [(''error'', JObj [(''message'', JStr ''bad'')])]))
     = [(JObj [(''message'', JStr ''bad'')],
         JObj [(''error'', JObj [(''message'', JStr ''bad'')])])]
   \<and> callbacks (stream_end sample_node (JStr ''{\"error\":{\"message\":\"bad\"}}''))
     = [(JObj [(''message'', JStr ''bad'')],
         JObj [(''error'', JObj [(''message'', JStr ''bad'')])])]
   \<and> JObj [(''message'', JStr ''bad'')] \<noteq> JNull
   \<and> JObj [(''error'', JObj [(''message'', JStr ''bad'')])] \<noteq> JNull"
  by (simp add: stream_end_def sample_node_def known_documents_def obj_get_def)

section \<open>How often the callback runs\<close>

text \<open>
  Claim C2 says that the callback runs exactly once for every call and every transport
  outcome.  The GET handler reads \<^verbatim>\<open>res.headers['content-type'].indexOf\<close> without a
  guard: when the transport succeeds with a response that has no content-type header,
  the handler throws before it reaches \<^verbatim>\<open>end\<close>, and the callback never runs.
\<close>

theorem get_without_content_type:
  assumes "\<not> truthy err" and "map_of (headers r) ''content-type'' = None"
  shows "callbacks (deliver nd GET (Completed err (Some r) body)) = []
         \<and> thrown (deliver nd GET (Completed err (Some r) body)) = Some TypeError"
  using assms by (simp add: deliver_def get_response_def)

theorem get_without_content_type_witness:
  "\<not> truthy JNull \<and> map_of (headers \<lparr>headers = []\<rparr>) ''content-type'' = None
   \<and> callbacks (deliver sample_node GET (Completed JNull (Some \<lparr>headers = []\<rparr>) (JStr ''true''))) = []
   \<and> thrown (deliver sample_node GET (Completed JNull (Some \<lparr>headers = []\<rparr>) (JStr ''true'')))
       = Some TypeError"
  using get_without_content_type [of JNull "\<lparr>headers = []\<rparr>" sample_node "JStr ''true''"]
  by simp

text \<open>
  Both wrappers also hand the same report to the function given to \<^verbatim>\<open>request\<close> and to
  the \<^verbatim>\<open>'error'\<close> listener: a transport that tells both of one failure makes the
  callback run twice.
\<close>

lemma failure_reported_by_both_handlers:
  "truthy e \<Longrightarrow>
     callbacks (deliver nd m (Completed e res body)) @ callbacks (deliver nd m (ErrorEvent e))
       = [(request_error e, JNull), (request_error e, JNull)]"
  by (cases m) (simp_all add: deliver_def get_response_def post_response_def on_error_def)

section \<open>The image marker\<close>

text \<open>
  Claim C5, as the code has it.  Only the GET handler looks at the content type.  For a
  GET whose transport succeeds with a content-type header that contains \<open>image\<close>, the
  callback receives a null error and the marker with the response's location header,
  whatever the body is; with a content-type header that does not contain \<open>image\<close> the
  raw body goes to \<^verbatim>\<open>end\<close>.  For a POST the raw body goes to \<^verbatim>\<open>end\<close> whatever the
  content type is.
\<close>

theorem image_marker_on_get_only:
  assumes "\<not> truthy err" and "map_of (headers r) ''content-type'' = Some ct"
  shows "(indexOf ct ''image'' \<noteq> - 1 \<longrightarrow>
            callbacks (get_response nd err (Some r) body)
              = [(JNull, JObj [(''image'', JBool True),
                               (''location'', (case map_of (headers r) ''location'' of
                                                 None \<Rightarrow> JUndefined | Some l \<Rightarrow> JStr l))])])
       \<and> (indexOf ct ''image'' = - 1 \<longrightarrow>
            get_response nd err (Some r) body = stream_end nd body)
       \<and> post_response nd err (Some r) body = stream_end nd body"
  using assms
  by (simp add: get_response_def post_response_def stream_end_def obj_get_def)

lemma image_jpeg_is_image: "indexOf ''image/jpeg'' ''image'' \<noteq> - 1"
  by code_simp

theorem image_marker_on_get_only_witness:
  "\<not> truthy JNull
   \<and> map_of (headers image_headers) ''content-type'' = Some ''image/jpeg''
   \<and> indexOf ''image/jpeg'' ''image'' \<noteq> - 1
   \<and> callbacks (get_response sample_node JNull (Some image_headers) (JStr ''{oops}''))
       = [(JNull, JObj [(''image'', JBool True),
                        (''location'', JStr ''https://cdn.example/p.jpg'')])]"
proof -
  have h: "map_of (headers image_headers) ''content-type'' = Some ''image/jpeg''"
    by (simp add: image_headers_def)
  have l: "map_of (headers image_headers) ''location'' = Some ''https://cdn.example/p.jpg''"
    by (simp add: image_headers_def)
  from image_marker_on_get_only [OF _ h, of JNull sample_node "JStr ''{oops}''"]
  show ?thesis using h l image_jpeg_is_image by simp
qed

text \<open>
  Claim C5, as the specification states it, fails for POST: with an image content type
  the POST handler still normalizes the body.
\<close>

theorem post_image_counterexample:
  "map_of (headers image_headers) ''content-type'' = Some ''image/jpeg''
   \<and> indexOf ''image/jpeg'' ''image'' \<noteq> - 1
   \<and> callbacks (deliver sample_node POST (Completed JNull (Some image_headers) (JStr ''true'')))
       = [(JNull, JObj [(''data'', JStr ''true'')])]"
  by code_simp

section \<open>The signature on the URL\<close>

text \<open>
  Claim C3, as the code has it.  The proof is gated on the signing token, not on the
  configured token.  Let the app secret be a non-empty string.  When the path contains
  \<open>access_token=X\<close>, the signing token is \<open>X\<close> whatever token is configured: the proof
  with HMAC input \<open>X\<close> is appended exactly when \<open>X\<close> is non-empty and the path does not
  contain the text \<open>appsecret_proof\<close>.  When the path embeds no token and a non-empty
  token \<open>T\<close> is configured, \<open>T\<close> is appended and the proof with HMAC input \<open>T\<close> follows
  exactly when the URL with the token does not contain the text \<open>appsecret_proof\<close>.
  When the path embeds no token and none is configured, nothing is appended.
\<close>

theorem proof_gated_on_signing_token:
  assumes "appSecret g = JStr s" and "s \<noteq> []"
  shows "(\<forall>X. exec_access_token (trim p) = Some X \<longrightarrow>
           cleanUrl nd g p =
             Inr (if X \<noteq> [] \<and> indexOf (trim p) ''appsecret_proof'' = - 1
                  then leading_slash (trim p) @ qsep (leading_slash (trim p))
                         @ ''appsecret_proof='' @ hmac_hex nd s X
                  else leading_slash (trim p)))
       \<and> (\<forall>T. exec_access_token (trim p) = None \<and> accessToken g = JStr T \<and> T \<noteq> [] \<longrightarrow>
           cleanUrl nd g p =
             Inr (if indexOf (leading_slash (trim p) @ qsep (leading_slash (trim p))
                               @ ''access_token='' @ T) ''appsecret_proof'' = - 1
                  then leading_slash (trim p) @ qsep (leading_slash (trim p))
                         @ ''access_token='' @ T @ ''&appsecret_proof='' @ hmac_hex nd s T
                  else leading_slash (trim p) @ qsep (leading_slash (trim p))
                         @ ''access_token='' @ T))
       \<and> (exec_access_token (trim p) = None \<and> \<not> truthy (accessToken g) \<longrightarrow>
           cleanUrl nd g p = Inr (leading_slash (trim p)))"
proof (intro conjI impI allI)
  fix X
  assume x: "exec_access_token (trim p) = Some X"
  then have "indexOf (trim p) ''access_token='' \<noteq> - 1"
    using exec_none [of "trim p"] by simp
  then have has: "indexOf (leading_slash (trim p)) ''access_token='' \<noteq> - 1"
    by (simp add: indexOf_leading_slash)
  have same: "(indexOf (leading_slash (trim p)) ''appsecret_proof'' = - 1)
               = (indexOf (trim p) ''appsecret_proof'' = - 1)"
    by (simp add: indexOf_leading_slash)
  show "cleanUrl nd g p =
             Inr (if X \<noteq> [] \<and> indexOf (trim p) ''appsecret_proof'' = - 1
                  then leading_slash (trim p) @ qsep (leading_slash (trim p))
                         @ ''appsecret_proof='' @ hmac_hex nd s X
                  else leading_slash (trim p))"
    using x has same assms by (simp add: cleanUrl_def Let_def)
next
  fix T
  assume b: "exec_access_token (trim p) = None \<and> accessToken g = JStr T \<and> T \<noteq> []"
  then have "indexOf (trim p) ''access_token='' = - 1"
    using exec_none [of "trim p"] by simp
  then have none: "indexOf (leading_slash (trim p)) ''access_token='' = - 1"
    by (simp add: indexOf_leading_slash)
  show "cleanUrl nd g p =
             Inr (if indexOf (leading_slash (trim p) @ qsep (leading_slash (trim p))
                               @ ''access_token='' @ T) ''appsecret_proof'' = - 1
                  then leading_slash (trim p) @ qsep (leading_slash (trim p))
                         @ ''access_token='' @ T @ ''&appsecret_proof='' @ hmac_hex nd s T
                  else leading_slash (trim p) @ qsep (leading_slash (trim p))
                         @ ''access_token='' @ T)"
    using b none assms qsep_after_sep [of "leading_slash (trim p)" "''access_token='' @ T"]
    by (simp add: cleanUrl_def Let_def)
next
  assume c: "exec_access_token (trim p) = None \<and> \<not> truthy (accessToken g)"
  then show "cleanUrl nd g p = Inr (leading_slash (trim p))"
    by (simp add: cleanUrl_def Let_def)
qed

theorem proof_gated_on_signing_token_witness:
  "exec_access_token (trim ''me?access_token=xyz&fields=id'') = Some ''xyz''
   \<and> cleanUrl sample_node (new_Graph\<lparr>accessToken := JStr ''T0K'', appSecret := JStr ''s''\<rparr>)
         ''me?access_token=xyz&fields=id''
       = Inr (''/me?access_token=xyz&fields=id&appsecret_proof=''
                @ hmac_hex sample_node ''s'' ''xyz'')
   \<and> exec_access_token (trim ''me?access_token=&fields=id'') = Some []
   \<and> cleanUrl sample_node (new_Graph\<lparr>accessToken := JStr ''T0K'', appSecret := JStr ''s''\<rparr>)
         ''me?access_token=&fields=id''
       = Inr ''/me?access_token=&fields=id''
   \<and> exec_access_token (trim '' me/feed '') = None
   \<and> cleanUrl sample_node (new_Graph\<lparr>accessToken := JStr ''T0K'', appSecret := JStr ''s''\<rparr>)
         '' me/feed ''
       = Inr (''/me/feed?access_token=T0K&appsecret_proof='' @ hmac_hex sample_node ''s'' ''T0K'')
   \<and> \<not> truthy (accessToken (new_Graph\<lparr>appSecret := JStr ''s''\<rparr>))
   \<and> cleanUrl sample_node (new_Graph\<lparr>appSecret := JStr ''s''\<rparr>) '' me/feed '' = Inr ''/me/feed''"
proof -
  let ?g = "new_Graph\<lparr>appSecret := JStr ''s''\<rparr>"
  let ?h = "new_Graph\<lparr>accessToken := JStr ''T0K'', appSecret := JStr ''s''\<rparr>"
  have ne: "''s'' \<noteq> []" by simp
  have gs: "appSecret ?g = JStr ''s''" by simp
  have hs: "appSecret ?h = JStr ''s''" by simp
  have x1: "exec_access_token (trim ''me?access_token=xyz&fields=id'') = Some ''xyz''"
    by code_simp
  have r1: "(if ''xyz'' \<noteq> [] \<and> indexOf (trim ''me?access_token=xyz&fields=id'') ''appsecret_proof'' = - 1
             then leading_slash (trim ''me?access_token=xyz&fields=id'')
                    @ qsep (leading_slash (trim ''me?access_token=xyz&fields=id''))
                    @ ''appsecret_proof='' @ hmac_hex sample_node ''s'' ''xyz''
             else leading_slash (trim ''me?access_token=xyz&fields=id''))
            = ''/me?access_token=xyz&fields=id&appsecret_proof='' @ hmac_hex sample_node ''s'' ''xyz''"
    by code_simp
  have x2: "exec_access_token (trim ''me?access_token=&fields=id'') = Some []"
    by code_simp
  have r2: "(if [] \<noteq> ([] :: string) \<and> indexOf (trim ''me?access_token=&fields=id'') ''appsecret_proof'' = - 1
             then leading_slash (trim ''me?access_token=&fields=id'')
                    @ qsep (leading_slash (trim ''me?access_token=&fields=id''))
                    @ ''appsecret_proof='' @ hmac_hex sample_node ''s'' []
             else leading_slash (trim ''me?access_token=&fields=id''))
            = ''/me?access_token=&fields=id''"
    by code_simp
  have x3: "exec_access_token (trim '' me/feed '') = None"
    by code_simp
  have h3: "exec_access_token (trim '' me/feed '') = None \<and> accessToken ?h = JStr ''T0K''
            \<and> ''T0K'' \<noteq> []"
    using x3 by simp
  have r3: "(if indexOf (leading_slash (trim '' me/feed '') @ qsep (leading_slash (trim '' me/feed ''))
                           @ ''access_token='' @ ''T0K'') ''appsecret_proof'' = - 1
             then leading_slash (trim '' me/feed '') @ qsep (leading_slash (trim '' me/feed ''))
                    @ ''access_token='' @ ''T0K'' @ ''&appsecret_proof='' @ hmac_hex sample_node ''s'' ''T0K''
             else leading_slash (trim '' me/feed '') @ qsep (leading_slash (trim '' me/feed ''))
                    @ ''access_token='' @ ''T0K'')
            = ''/me/feed?access_token=T0K&appsecret_proof='' @ hmac_hex sample_node ''s'' ''T0K''"
    by code_simp
  have unset: "\<not> truthy (accessToken ?g)" by (simp add: new_Graph_def)
  have h4: "exec_access_token (trim '' me/feed '') = None \<and> \<not> truthy (accessToken ?g)"
    using x3 unset by simp
  have r4: "leading_slash (trim '' me/feed '') = ''/me/feed''" by code_simp
  have 1: "cleanUrl sample_node ?h ''me?access_token=xyz&fields=id''
        = Inr (''/me?access_token=xyz&fields=id&appsecret_proof='' @ hmac_hex sample_node ''s'' ''xyz'')"
    using proof_gated_on_signing_token
            [OF hs ne, of "''me?access_token=xyz&fields=id''" sample_node, THEN conjunct1,
             THEN spec, of "''xyz''", THEN mp, OF x1]
    by (simp only: r1)
  have 2: "cleanUrl sample_node ?h ''me?access_token=&fields=id'' = Inr ''/me?access_token=&fields=id''"
    using proof_gated_on_signing_token
            [OF hs ne, of "''me?access_token=&fields=id''" sample_node, THEN conjunct1,
             THEN spec, of "[]", THEN mp, OF x2]
    by (simp only: r2)
  have 3: "cleanUrl sample_node ?h '' me/feed ''
        = Inr (''/me/feed?access_token=T0K&appsecret_proof='' @ hmac_hex sample_node ''s'' ''T0K'')"
    using proof_gated_on_signing_token
            [OF hs ne, of "'' me/feed ''" sample_node, THEN conjunct2, THEN conjunct1,
             THEN spec, of "''T0K''", THEN mp, OF h3]
    by (simp only: r3)
  have 4: "cleanUrl sample_node ?g '' me/feed '' = Inr ''/me/feed''"
    using proof_gated_on_signing_token
            [OF gs ne, of "'' me/feed ''" sample_node, THEN conjunct2, THEN conjunct2, THEN mp, OF h4]
    by (simp only: r4)
  from x1 1 x2 2 x3 3 unset 4 show ?thesis by (intro conjI)
qed

text \<open>
  Claim C3, as the specification states it, fails: with an app secret, no configured
  token and a token embedded in the path, the proof is appended.
\<close>

theorem proof_without_config_token_counterexample:
  "accessToken (new_Graph\<lparr>appSecret := JStr ''s''\<rparr>) = JUndefined
   \<and> cleanUrl sample_node (new_Graph\<lparr>appSecret := JStr ''s''\<rparr>) ''me?access_token=abc''
       = Inr (''/me?access_token=abc&appsecret_proof='' @ hmac_hex sample_node ''s'' ''abc'')"
  by code_simp

text \<open>
  Claim C4, as the code has it.  For every path that contains \<open>access_token=X\<close> with a
  non-empty \<open>X\<close> (the text after the first \<open>access_token=\<close> up to the next \<open>&\<close>), a
  non-empty string as app secret and no \<open>appsecret_proof\<close> in the path, the built URL is
  the path with \<open>appsecret_proof=\<close> and the hexadecimal HMAC of \<open>X\<close> under the app secret
  appended, whatever token is configured.
\<close>

theorem embedded_token_proof:
  assumes "exec_access_token (trim p) = Some X" and "X \<noteq> []"
    and "appSecret g = JStr s" and "s \<noteq> []"
    and "indexOf (trim p) ''appsecret_proof'' = - 1"
  shows "cleanUrl nd g p =
           Inr (leading_slash (trim p) @ qsep (leading_slash (trim p))
                  @ ''appsecret_proof='' @ hmac_hex nd s X)"
proof -
  have "indexOf (trim p) ''access_token='' \<noteq> - 1"
    using assms(1) exec_none [of "trim p"] by simp
  then have has: "indexOf (leading_slash (trim p)) ''access_token='' \<noteq> - 1"
    by (simp add: indexOf_leading_slash)
  have no: "indexOf (leading_slash (trim p)) ''appsecret_proof'' = - 1"
    using assms(5) by (simp add: indexOf_leading_slash)
  show ?thesis
    using assms(1-4) has no by (simp add: cleanUrl_def Let_def)
qed

theorem embedded_token_proof_witness:
  "exec_access_token (trim ''https://graph.facebook.com/me?access_token=abc '') = Some ''abc''
   \<and> cleanUrl sample_node (new_Graph\<lparr>accessToken := JStr ''T0K'', appSecret := JStr ''s''\<rparr>)
         ''https://graph.facebook.com/me?access_token=abc ''
       = Inr (''https://graph.facebook.com/me?access_token=abc&appsecret_proof=''
                @ hmac_hex sample_node ''s'' ''abc'')"
proof -
  let ?p = "''https://graph.facebook.com/me?access_token=abc ''"
  let ?g = "new_Graph\<lparr>accessToken := JStr ''T0K'', appSecret := JStr ''s''\<rparr>"
  have a1: "exec_access_token (trim ?p) = Some ''abc''" by code_simp
  have a2: "''abc'' \<noteq> []" by simp
  have a3: "appSecret ?g = JStr ''s''" by simp
  have a4: "''s'' \<noteq> []" by simp
  have a5: "indexOf (trim ?p) ''appsecret_proof'' = - 1" by code_simp
  have e: "leading_slash (trim ?p) @ qsep (leading_slash (trim ?p))
             @ ''appsecret_proof='' @ hmac_hex sample_node ''s'' ''abc''
           = ''https://graph.facebook.com/me?access_token=abc&appsecret_proof=''
                @ hmac_hex sample_node ''s'' ''abc''"
    by code_simp
  have "cleanUrl sample_node ?g ?p
          = Inr (''https://graph.facebook.com/me?access_token=abc&appsecret_proof=''
                   @ hmac_hex sample_node ''s'' ''abc'')"
    using embedded_token_proof [OF a1 a2 a3 a4 a5, of sample_node] by (simp only: e)
  with a1 show ?thesis by (intro conjI)
qed

text \<open>
  Claim C4, as the specification states it, fails when the embedded token is empty: the
  path contains \<open>access_token=\<close>, an app secret and a token are configured, and no proof
  is appended.  It also fails when the path has the text \<open>appsecret_proof\<close> somewhere
  but no parameter of that name: the code looks for the text.
\<close>

theorem empty_embedded_token_counterexample:
  "exec_access_token (trim ''me?access_token='') = Some []
   \<and> cleanUrl sample_node (new_Graph\<lparr>accessToken := JStr ''T0K'', appSecret := JStr ''s''\<rparr>)
         ''me?access_token=''
       = Inr ''/me?access_token=''
   \<and> map (takeWhile (\<lambda>c. c \<noteq> CHR ''=''))
         (split_on (CHR ''&'') ''access_token=abc&fields=appsecret_proof'')
       = [''access_token'', ''fields'']
   \<and> cleanUrl sample_node (new_Graph\<lparr>appSecret := JStr ''s''\<rparr>)
         ''me?access_token=abc&fields=appsecret_proof''
       = Inr ''/me?access_token=abc&fields=appsecret_proof''"
  by code_simp

section \<open>The access token on the URL\<close>

lemma no_token_text: "CHR ''='' \<notin> set t \<Longrightarrow> occurrences ''access_token='' t = 0"
  by (rule occurrences_lacking [of "CHR ''=''"]) simp_all

lemma occurrences_token_param:
  assumes "occurrences ''access_token='' L = 0" and "c = CHR ''?'' \<or> c = CHR ''&''"
    and "occurrences ''access_token='' T = 0"
  shows "occurrences ''access_token='' (L @ c # ''access_token='' @ T) = 1"
proof -
  have "c \<notin> set ''access_token=''" using assms(2) by auto
  then have "occurrences ''access_token='' (L @ c # ''access_token='' @ T)
      = occurrences ''access_token='' L + occurrences ''access_token='' (''access_token='' @ T)"
    by (rule occurrences_across) simp
  moreover have "occurrences ''access_token='' (''access_token='' @ T) = 1"
    using assms(3) by simp
  ultimately show ?thesis using assms(1) by simp
qed

lemma occurrences_with_proof:
  assumes "occurrences ''access_token='' U = 1" and "CHR ''='' \<notin> set H"
  shows "occurrences ''access_token='' (U @ CHR ''&'' # ''appsecret_proof='' @ H) = 1"
proof -
  have "occurrences ''access_token='' (U @ CHR ''&'' # ''appsecret_proof='' @ H)
      = occurrences ''access_token='' U + occurrences ''access_token='' (''appsecret_proof='' @ H)"
    by (rule occurrences_across) simp_all
  moreover have "occurrences ''access_token='' (''appsecret_proof='' @ H) = 0"
    using assms(2) by (simp add: no_token_text)
  ultimately show ?thesis using assms(1) by simp
qed

lemma exec_token_param:
  assumes "indexOf L ''access_token='' = - 1" and "c = CHR ''?'' \<or> c = CHR ''&''"
    and "CHR ''&'' \<notin> set T" and "rest = [] \<or> hd rest = CHR ''&''"
  shows "exec_access_token (L @ c # ''access_token='' @ T @ rest) = Some T"
proof -
  have "c \<notin> set ''access_token=''" using assms(2) by auto
  with assms(1) have "exec_access_token (L @ c # ''access_token='' @ T @ rest)
      = exec_access_token (''access_token='' @ T @ rest)"
    by (rule exec_across)
  moreover have "takeWhile (\<lambda>x. x \<noteq> CHR ''&'') (T @ rest) = T"
  proof (cases rest)
    case Nil
    then show ?thesis using assms(3) by auto
  next
    case (Cons r rs)
    with assms(4) have "r = CHR ''&''" by simp
    with Cons show ?thesis using assms(3) by (auto simp: takeWhile_tail)
  qed
  ultimately show ?thesis by simp
qed

text \<open>
  Claim C7, as the code has it.  Let the path not contain the text \<open>access_token=\<close>,
  let a token \<open>T\<close> be configured, a non-empty string that contains neither \<open>&\<close> nor the
  text \<open>access_token=\<close>, let the app secret be a string or unset, and let the digest be
  free of \<open>=\<close> (a hexadecimal digest is).  Then the built URL starts with the path, a
  \<open>?\<close> if the path had none and a \<open>&\<close> otherwise, and \<open>access_token=T\<close>; it contains
  \<open>access_token=\<close> exactly once; and the value of that parameter is \<open>T\<close>.
\<close>

theorem token_appended_once:
  assumes tok: "accessToken g = JStr T" "T \<noteq> []" "indexOf T ''access_token='' = - 1"
      "CHR ''&'' \<notin> set T"
    and path: "indexOf (trim p) ''access_token='' = - 1"
    and secret: "appSecret g = JStr s \<or> \<not> truthy (appSecret g)"
    and digest: "CHR ''='' \<notin> set (hmac_hex nd s T)"
  shows "\<exists>r. cleanUrl nd g p = Inr r
           \<and> prefix (leading_slash (trim p)
                       @ (if CHR ''?'' \<in> set (trim p) then ''&'' else ''?'')
                       @ ''access_token='' @ T) r
           \<and> occurrences ''access_token='' r = 1
           \<and> exec_access_token r = Some T"
proof -
  define L where "L = leading_slash (trim p)"
  define c where "c = (if CHR ''?'' \<in> set (trim p) then CHR ''&'' else CHR ''?'')"
  define U where "U = L @ c # ''access_token='' @ T"
  have c: "c = CHR ''?'' \<or> c = CHR ''&''" by (simp add: c_def)
  have sep: "qsep L = [c]" by (simp add: L_def c_def qsep_leading_slash)
  have none: "indexOf L ''access_token='' = - 1"
    using path by (simp add: L_def indexOf_leading_slash)
  then have occL: "occurrences ''access_token='' L = 0"
    by (simp add: indexOf_occurrences)
  have sepU: "qsep U = ''&''"
    using qsep_after_sep [of L "''access_token='' @ T"] by (simp add: U_def sep)
  have occT: "occurrences ''access_token='' T = 0"
    using tok(3) by (simp add: indexOf_occurrences)
  have occU: "occurrences ''access_token='' U = 1"
    unfolding U_def by (rule occurrences_token_param [OF occL c occT])
  have execU: "exec_access_token U = Some T"
    using exec_token_param [OF none c tok(4), of "[]"] by (simp add: U_def)
  have pre: "(leading_slash (trim p) @ (if CHR ''?'' \<in> set (trim p) then ''&'' else ''?'')
                       @ ''access_token='' @ T) = U"
    by (simp add: U_def L_def c_def)
  have step: "cleanUrl nd g p =
      (if truthy (appSecret g) \<and> indexOf U ''appsecret_proof'' = - 1
       then (case appSecret g of
               JStr key \<Rightarrow> Inr (U @ ''&appsecret_proof='' @ hmac_hex nd key T)
             | _ \<Rightarrow> Inl TypeError)
       else Inr U)"
    using tok(1,2) path none sep sepU
    by (simp add: cleanUrl_def Let_def L_def [symmetric] U_def
          exec_none [symmetric, of "trim p", simplified]
          split: option.splits jsval.splits)
  show ?thesis
  proof (cases "truthy (appSecret g) \<and> indexOf U ''appsecret_proof'' = - 1")
    case False
    have "cleanUrl nd g p = Inr U" unfolding step by (rule if_not_P [OF False])
    then show ?thesis using occU execU pre by simp
  next
    case True
    with secret have s: "appSecret g = JStr s" by blast
    let ?r = "U @ CHR ''&'' # ''appsecret_proof='' @ hmac_hex nd s T"
    have r: "cleanUrl nd g p = Inr ?r" using step True s by simp
    have "occurrences ''access_token='' ?r = 1"
      by (rule occurrences_with_proof [OF occU digest])
    moreover have "exec_access_token ?r = Some T"
      using exec_token_param
              [OF none c tok(4), of "CHR ''&'' # ''appsecret_proof='' @ hmac_hex nd s T"]
      by (simp add: U_def)
    moreover have "prefix U ?r" by simp
    ultimately show ?thesis using r pre by simp
  qed
qed

theorem token_appended_once_witness:
  "indexOf (trim '' me?fields=id '') ''access_token='' = - 1
   \<and> CHR ''='' \<notin> set (hmac_hex sample_node ''s'' ''T0K'')
   \<and> (\<exists>r. cleanUrl sample_node (new_Graph\<lparr>accessToken := JStr ''T0K'', appSecret := JStr ''s''\<rparr>)
               '' me?fields=id '' = Inr r
          \<and> prefix ''/me?fields=id&access_token=T0K'' r
          \<and> occurrences ''access_token='' r = 1
          \<and> exec_access_token r = Some ''T0K'')"
proof -
  let ?p = "'' me?fields=id ''"
  let ?g = "new_Graph\<lparr>accessToken := JStr ''T0K'', appSecret := JStr ''s''\<rparr>"
  have t1: "accessToken ?g = JStr ''T0K''" by simp
  have t2: "''T0K'' \<noteq> []" by simp
  have t3: "indexOf ''T0K'' ''access_token='' = - 1" by code_simp
  have t4: "CHR ''&'' \<notin> set ''T0K''" by simp
  have pa: "indexOf (trim ?p) ''access_token='' = - 1" by code_simp
  have se: "appSecret ?g = JStr ''s'' \<or> \<not> truthy (appSecret ?g)" by simp
  have di: "CHR ''='' \<notin> set (hmac_hex sample_node ''s'' ''T0K'')" by code_simp
  have e: "leading_slash (trim ?p) @ (if CHR ''?'' \<in> set (trim ?p) then ''&'' else ''?'')
             @ ''access_token='' @ ''T0K''
           = ''/me?fields=id&access_token=T0K''"
    by code_simp
  have "\<exists>r. cleanUrl sample_node ?g ?p = Inr r
          \<and> prefix ''/me?fields=id&access_token=T0K'' r
          \<and> occurrences ''access_token='' r = 1
          \<and> exec_access_token r = Some ''T0K''"
    using token_appended_once [OF t1 t2 t3 t4 pa se di] by (simp only: e)
  with pa di show ?thesis by (intro conjI)
qed


text \<open>
  Claim C7, as the specification states it, fails in two ways.  A path whose only
  parameter is \<open>my_access_token\<close> has no \<open>access_token\<close> parameter, but it contains the
  text \<open>access_token=\<close>, so the configured token is not appended.  And a configured
  token that contains a \<open>&\<close> is appended as it is, so the value of the parameter (the
  text up to the \<open>&\<close>) is not the token.
\<close>

theorem token_not_appended_counterexample:
  "map (takeWhile (\<lambda>c. c \<noteq> CHR ''='')) (split_on (CHR ''&'') ''my_access_token=1'')
     = [''my_access_token'']
   \<and> cleanUrl sample_node (new_Graph\<lparr>accessToken := JStr ''T0K''\<rparr>) ''me?my_access_token=1''
       = Inr ''/me?my_access_token=1''
   \<and> occurrences ''access_token=T0K'' ''/me?my_access_token=1'' = 0
   \<and> cleanUrl sample_node (new_Graph\<lparr>accessToken := JStr ''a&b''\<rparr>) ''me''
       = Inr ''/me?access_token=a&b''
   \<and> exec_access_token ''/me?access_token=a&b'' = Some ''a''"
  by code_simp

section \<open>Parsing the body\<close>

text \<open>
  Claim C8.  For every string body, \<^verbatim>\<open>JSON.parse\<close> is called if and only if the body
  contains both a \<open>{\<close> and a \<open>}\<close>; no exception leaves \<^verbatim>\<open>end\<close>; and when the parse
  throws \<open>e\<close>, the callback receives the error with message \<open>Error parsing json\<close> and
  \<open>e\<close> as its exception, and a null result.
\<close>

theorem json_attempted_iff_braces:
  "(Call_JSON_parse s \<in> set (parses (stream_end nd (JStr s))))
      = (CHR ''{'' \<in> set s \<and> CHR ''}'' \<in> set s)
   \<and> thrown (stream_end nd (JStr s)) = None
   \<and> (\<forall>e. CHR ''{'' \<in> set s \<and> CHR ''}'' \<in> set s \<and> JSON_parse nd s = Inl e \<longrightarrow>
         callbacks (stream_end nd (JStr s))
           = [(JObj [(''message'', JStr ''Error parsing json''), (''exception'', e)], JNull)])"
  by (auto simp: stream_end_def Let_def indexOf_char parse_error_def split: sum.splits)

lemma sample_rejects_not_json: "JSON_parse sample_node ''not json {}'' = Inl SyntaxError"
  by (simp add: sample_node_def known_documents_def)

theorem json_attempted_iff_braces_witness:
  "CHR ''{'' \<in> set ''not json {}'' \<and> CHR ''}'' \<in> set ''not json {}''
   \<and> JSON_parse sample_node ''not json {}'' = Inl SyntaxError
   \<and> Call_JSON_parse ''not json {}'' \<in> set (parses (stream_end sample_node (JStr ''not json {}'')))
   \<and> callbacks (stream_end sample_node (JStr ''not json {}''))
       = [(JObj [(''message'', JStr ''Error parsing json''), (''exception'', SyntaxError)], JNull)]"
  using json_attempted_iff_braces [of "''not json {}''" sample_node] sample_rejects_not_json
  by simp

text \<open>
  Claim C9, as the code has it.  A string body that lacks a \<open>{\<close> or a \<open>}\<close> is handed
  to the query-string reader and to nothing else: as \<open>?data=\<close> followed by the entire
  body when the body has no \<open>=\<close>, otherwise as the body itself with a \<open>?\<close> put in front
  unless it has one.  The mapping the reader returns for that text is the result
  argument, with a null error unless the mapping carries a truthy \<open>error\<close>; when the
  reader throws, the callback receives the parse error and null.  So the entire body is
  the value of \<open>data\<close> in the text that is read, and what the result holds is the
  reader's splitting and decoding of that text.  In particular, when the reader maps
  \<open>?data=true\<close> to \<open>{data: "true"}\<close>, the body \<open>true\<close> yields the success result
  \<open>{data: "true"}\<close>.
\<close>

theorem plain_body_as_query:
  assumes "\<not> (CHR ''{'' \<in> set s \<and> CHR ''}'' \<in> set s)"
  shows "parses (stream_end nd (JStr s))
           = [Call_url_parse (if CHR ''='' \<notin> set s then ''?data='' @ s
                              else if take 1 s = ''?'' then s else ''?'' @ s)]
       \<and> (\<forall>v. url_query nd (if CHR ''='' \<notin> set s then ''?data='' @ s
                              else if take 1 s = ''?'' then s else ''?'' @ s) = Inr v \<longrightarrow>
              callbacks (stream_end nd (JStr s))
                = [(if truthy v \<and> truthy (get_prop v ''error'') then get_prop v ''error''
                    else JNull, v)])
       \<and> (\<forall>e. url_query nd (if CHR ''='' \<notin> set s then ''?data='' @ s
                              else if take 1 s = ''?'' then s else ''?'' @ s) = Inl e \<longrightarrow>
              callbacks (stream_end nd (JStr s))
                = [(JObj [(''message'', JStr ''Error parsing json''), (''exception'', e)], JNull)])
       \<and> thrown (stream_end nd (JStr s)) = None
       \<and> (url_query nd ''?data=true'' = Inr (JObj [(''data'', JStr ''true'')]) \<longrightarrow>
              callbacks (stream_end nd (JStr ''true''))
                = [(JNull, JObj [(''data'', JStr ''true'')])])"
  using assms
  by (auto simp: stream_end_def Let_def indexOf_char obj_get_def parse_error_def
        split: sum.splits)

lemma sample_reads_data_true:
  "url_query sample_node ''?data=true'' = Inr (JObj [(''data'', JStr ''true'')])"
  by code_simp

theorem plain_body_as_query_witness:
  "\<not> (CHR ''{'' \<in> set ''true'' \<and> CHR ''}'' \<in> set ''true'')
   \<and> url_query sample_node ''?data=true'' = Inr (JObj [(''data'', JStr ''true'')])
   \<and> parses (stream_end sample_node (JStr ''true'')) = [Call_url_parse ''?data=true'']
   \<and> callbacks (stream_end sample_node (JStr ''true''))
       = [(JNull, JObj [(''data'', JStr ''true'')])]"
  using plain_body_as_query [of "''true''" sample_node] sample_reads_data_true
  by (simp add: obj_get_def)

text \<open>
  Claim C9, as the specification states it, fails on a body without \<open>=\<close> that contains a
  \<open>&\<close>: the text read is \<open>?data=a&b\<close>, which holds two parameters, so the value of
  \<open>data\<close> is not the entire body.
\<close>

theorem body_with_ampersand_counterexample:
  "CHR ''='' \<notin> set ''a&b''
   \<and> \<not> (CHR ''{'' \<in> set ''a&b'' \<and> CHR ''}'' \<in> set ''a&b'')
   \<and> parses (stream_end sample_node (JStr ''a&b'')) = [Call_url_parse ''?data=a&b'']
   \<and> callbacks (stream_end sample_node (JStr ''a&b''))
       = [(JNull, JObj [(''data'', JStr ''a''), (''b'', JStr [])])]
   \<and> JObj [(''data'', JStr ''a''), (''b'', JStr [])] \<noteq> JObj [(''data'', JStr ''a&b'')]"
  by code_simp

section \<open>The request options\<close>

lemma options_built:
  assumes "prepareUrl nd g url = Inr u"
  shows "\<exists>opts. GraphStream_options nd g m url postData = Inr opts
           \<and> obj_get opts ''method'' = JStr (method_name m)
           \<and> obj_get opts ''uri'' = JStr u
           \<and> obj_get opts ''followRedirect'' = JBool False
           \<and> obj_get opts ''encoding''
               = (if truthy (obj_get (requestOptions g) ''encoding'')
                  then obj_get (requestOptions g) ''encoding'' else JStr ''utf-8'')
           \<and> (\<forall>k. k \<notin> {''encoding'', ''method'', ''uri'', ''followRedirect'', ''body''} \<longrightarrow>
                  obj_get opts k = obj_get (requestOptions g) k)"
  using assms
  by (cases m) (simp_all add: GraphStream_options_def Let_def obj_get_obj_set)

text \<open>
  Claim C10, as the code has it.  Whatever options the caller has set, the options
  issued carry the pipeline's method, the resolved URL and \<open>followRedirect = false\<close>;
  every other option of the caller's (but \<open>body\<close>, which a POST sets) is passed on
  unchanged.  The caller's encoding is kept when it is truthy; when it is absent or
  falsy (null, the empty string, 0, false) the encoding is \<open>utf-8\<close>.
\<close>

theorem fixed_options_win:
  assumes "prepareUrl nd g url = Inr u"
  shows "\<exists>opts. GraphStream_options nd g m url postData = Inr opts
           \<and> obj_get opts ''method'' = JStr (method_name m)
           \<and> obj_get opts ''uri'' = JStr u
           \<and> obj_get opts ''followRedirect'' = JBool False
           \<and> obj_get opts ''encoding''
               = (if truthy (obj_get (requestOptions g) ''encoding'')
                  then obj_get (requestOptions g) ''encoding'' else JStr ''utf-8'')
           \<and> (\<forall>k. k \<notin> {''encoding'', ''method'', ''uri'', ''followRedirect'', ''body''} \<longrightarrow>
                  obj_get opts k = obj_get (requestOptions g) k)"
  using assms by (rule options_built)

theorem fixed_options_win_witness:
  "prepareUrl sample_node
     (new_Graph\<lparr>requestOptions := [(''timeout'', JNum 30000), (''method'', JStr ''DELETE''),
                                  (''followRedirect'', JBool True), (''encoding'', JStr ''latin1'')]\<rparr>)
     ''me'' = Inr ''https://graph.facebook.com/v2.9/me''
   \<and> (\<exists>opts. GraphStream_options sample_node
                (new_Graph\<lparr>requestOptions := [(''timeout'', JNum 30000), (''method'', JStr ''DELETE''),
                                  (''followRedirect'', JBool True), (''encoding'', JStr ''latin1'')]\<rparr>)
                POST ''me'' [] = Inr opts
          \<and> obj_get opts ''method'' = JStr ''POST''
          \<and> obj_get opts ''uri'' = JStr ''https://graph.facebook.com/v2.9/me''
          \<and> obj_get opts ''followRedirect'' = JBool False
          \<and> obj_get opts ''encoding'' = JStr ''latin1''
          \<and> obj_get opts ''timeout'' = JNum 30000)"
proof -
  let ?g = "new_Graph\<lparr>requestOptions := [(''timeout'', JNum 30000), (''method'', JStr ''DELETE''),
                                  (''followRedirect'', JBool True), (''encoding'', JStr ''latin1'')]\<rparr>"
  have u: "prepareUrl sample_node ?g ''me'' = Inr ''https://graph.facebook.com/v2.9/me''"
    by code_simp
  have enc: "obj_get (requestOptions ?g) ''encoding'' = JStr ''latin1''"
    by (simp add: obj_get_def)
  have tmo: "obj_get (requestOptions ?g) ''timeout'' = JNum 30000"
    by (simp add: obj_get_def)
  from fixed_options_win [OF u, of POST "[]"] obtain opts
    where o: "GraphStream_options sample_node ?g POST ''me'' [] = Inr opts"
      "obj_get opts ''method'' = JStr (method_name POST)"
      "obj_get opts ''uri'' = JStr ''https://graph.facebook.com/v2.9/me''"
      "obj_get opts ''followRedirect'' = JBool False"
      "obj_get opts ''encoding''
         = (if truthy (obj_get (requestOptions ?g) ''encoding'')
            then obj_get (requestOptions ?g) ''encoding'' else JStr ''utf-8'')"
      "\<forall>k. k \<notin> {''encoding'', ''method'', ''uri'', ''followRedirect'', ''body''} \<longrightarrow>
            obj_get opts k = obj_get (requestOptions ?g) k"
    by blast
  from o(2) have m: "obj_get opts ''method'' = JStr ''POST''" by (simp add: method_name_def)
  from o(5) have e: "obj_get opts ''encoding'' = JStr ''latin1''" by (simp only: enc truthy.simps) simp
  from o(6) have "obj_get opts ''timeout'' = obj_get (requestOptions ?g) ''timeout''" by simp
  with tmo have t: "obj_get opts ''timeout'' = JNum 30000" by simp
  from u o(1) m o(3) o(4) e t show ?thesis by blast
qed

text \<open>
  Claim C10, as the specification states it, fails for a caller who supplies a falsy
  encoding: \<open>encoding: null\<close> is replaced by \<open>utf-8\<close>.
\<close>

theorem null_encoding_counterexample:
  "map_of [(''encoding'', JNull)] ''encoding'' = Some JNull
   \<and> GraphStream_options sample_node (new_Graph\<lparr>requestOptions := [(''encoding'', JNull)]\<rparr>)
        GET ''me'' []
      = Inr [(''encoding'', JStr ''utf-8''), (''method'', JStr ''GET''),
             (''uri'', JStr ''https://graph.facebook.com/v2.9/me''),
             (''followRedirect'', JBool False)]"
  by code_simp

section \<open>Extending the access token\<close>

lemma cleanUrl_prefix: "cleanUrl nd g p = Inr u \<Longrightarrow> prefix (leading_slash (trim p)) u"
  by (auto simp: cleanUrl_def Let_def split: if_splits jsval.splits option.splits)

lemma exchange_keeps_access_token:
  "obj_get (exchange_params g params) ''access_token'' = obj_get params ''access_token''"
  by (simp add: exchange_params_def Let_def obj_get_obj_set)

lemma exchange_params_fields:
  "obj_get (exchange_params g params) ''grant_type'' = JStr ''fb_exchange_token''
   \<and> obj_get (exchange_params g params) ''fb_exchange_token''
       = (if truthy (obj_get params ''access_token'')
          then obj_get params ''access_token'' else accessToken g)
   \<and> (\<forall>k. k \<noteq> ''grant_type'' \<and> k \<noteq> ''fb_exchange_token'' \<longrightarrow>
          obj_get (exchange_params g params) k = obj_get params k)"
  by (simp add: exchange_params_def Let_def obj_get_obj_set)

lemma Graph_get_oauth:
  "Graph_get nd g ''/oauth/access_token'' (Some ps)
     = GraphStream_options nd g GET (''/oauth/access_token?'' @ qs_stringify nd ps) []"
  by (simp add: Graph_get_def qsep_def)

lemma options_fields:
  assumes "GraphStream_options nd g m url postData = Inr opts"
  shows "\<exists>u. prepareUrl nd g url = Inr u
           \<and> obj_get opts ''method'' = JStr (method_name m)
           \<and> obj_get opts ''uri'' = JStr u"
proof (cases "prepareUrl nd g url")
  case (Inl e)
  with assms show ?thesis by (simp add: GraphStream_options_def)
next
  case (Inr u)
  from options_built [OF Inr, of m postData] assms Inr show ?thesis by auto
qed

lemma prepareUrl_relative:
  assumes "prepareUrl nd g (CHR ''/'' # rest) = Inr w"
  shows "\<exists>u. cleanUrl nd g (CHR ''/'' # rest) = Inr u \<and> w = graphUrl g @ ''/v'' @ graphVersion g @ u"
proof (cases "cleanUrl nd g (CHR ''/'' # rest)")
  case (Inl e)
  with assms show ?thesis by (simp add: prepareUrl_def)
next
  case (Inr u)
  obtain t where "trim (CHR ''/'' # rest) = CHR ''/'' # t"
    using trim_keeps_head [of "CHR ''/''" rest] by (auto simp: js_space_def)
  then have "leading_slash (trim (CHR ''/'' # rest)) = CHR ''/'' # t"
    by (simp add: leading_slash_def)
  with cleanUrl_prefix [OF Inr] obtain x where "u = CHR ''/'' # x"
    by (auto simp: prefix_def)
  then have "take 4 u \<noteq> ''http''" by (cases x) auto
  with Inr assms show ?thesis by (simp add: prepareUrl_def)
qed

lemma oauth_request:
  assumes "Graph_get nd g ''/oauth/access_token'' (Some ps) = Inr opts"
  shows "obj_get opts ''method'' = JStr ''GET''
       \<and> (\<exists>u. cleanUrl nd g (''/oauth/access_token?'' @ qs_stringify nd ps) = Inr u
              \<and> obj_get opts ''uri'' = JStr (graphUrl g @ ''/v'' @ graphVersion g @ u))"
proof -
  from assms
  have "GraphStream_options nd g GET (''/oauth/access_token?'' @ qs_stringify nd ps) [] = Inr opts"
    by (simp only: Graph_get_oauth)
  from options_fields [OF this] obtain w
    where w: "prepareUrl nd g (''/oauth/access_token?'' @ qs_stringify nd ps) = Inr w"
      and m: "obj_get opts ''method'' = JStr (method_name GET)"
      and u: "obj_get opts ''uri'' = JStr w"
    by blast
  from w have "prepareUrl nd g (CHR ''/'' # ''oauth/access_token?'' @ qs_stringify nd ps) = Inr w"
    by simp
  from prepareUrl_relative [OF this] u m show ?thesis
    by (simp add: method_name_def)
qed

text \<open>
  \<^verbatim>\<open>Graph.extendAccessToken\<close>: the call issues a GET on the graph host for
  \<open>/oauth/access_token\<close>; its query is the form encoding of the caller's parameters
  with \<open>grant_type\<close> and \<open>fb_exchange_token\<close> set as \<open>exchange_params_fields\<close> says.  When
  the callback is invoked without an error and the caller's parameters carry no access
  token of their own, the configured token becomes the response's \<open>access_token\<close>; when
  there is an error, or the parameters carry an access token, the configured token is
  left as it was.  In both cases the caller's callback receives the same arguments.
\<close>

lemma extend_token_update:
  assumes "Graph_get nd g ''/oauth/access_token'' (Some (exchange_params g params)) = Inr opts"
    and "callbacks (deliver nd GET ev) = [(err, res)]"
  shows "issued (extendAccessToken nd g params ev) = Some opts
       \<and> obj_get opts ''method'' = JStr ''GET''
       \<and> (\<exists>u. cleanUrl nd g (''/oauth/access_token?''
                                @ qs_stringify nd (exchange_params g params)) = Inr u
              \<and> obj_get opts ''uri'' = JStr (graphUrl g @ ''/v'' @ graphVersion g @ u))
       \<and> (\<not> truthy err \<and> \<not> truthy (obj_get params ''access_token'')
            \<and> res \<noteq> JNull \<and> res \<noteq> JUndefined \<longrightarrow>
              graph_after (extendAccessToken nd g params ev)
                = g\<lparr>accessToken := get_prop res ''access_token''\<rparr>
            \<and> reported (extendAccessToken nd g params ev) = [(err, res)])
       \<and> (truthy err \<or> truthy (obj_get params ''access_token'') \<longrightarrow>
              graph_after (extendAccessToken nd g params ev) = g
            \<and> reported (extendAccessToken nd g params ev) = [(err, res)])"
proof -
  have out: "extendAccessToken nd g params ev =
      (case run_callbacks
              (\<lambda>g err res.
                 if \<not> truthy err \<and> \<not> truthy (obj_get params ''access_token'')
                 then set_token_from g res else Inr g)
              g [(err, res)] of
         (g', invocations, r) \<Rightarrow>
           \<lparr>issued = Some opts, graph_after = g', reported = invocations,
            raised = (case thrown (deliver nd GET ev) of Some e \<Rightarrow> Some e | None \<Rightarrow> r)\<rparr>)"
    using assms by (simp add: extendAccessToken_def Let_def exchange_keeps_access_token)
  have a: "issued (extendAccessToken nd g params ev) = Some opts"
    unfolding out by (simp add: set_token_from_def split: sum.splits)
  have b: "\<not> truthy err \<and> \<not> truthy (obj_get params ''access_token'')
            \<and> res \<noteq> JNull \<and> res \<noteq> JUndefined \<longrightarrow>
              graph_after (extendAccessToken nd g params ev)
                = g\<lparr>accessToken := get_prop res ''access_token''\<rparr>
            \<and> reported (extendAccessToken nd g params ev) = [(err, res)]"
    unfolding out by (simp add: set_token_from_def)
  have c: "truthy err \<or> truthy (obj_get params ''access_token'') \<longrightarrow>
              graph_after (extendAccessToken nd g params ev) = g
            \<and> reported (extendAccessToken nd g params ev) = [(err, res)]"
    unfolding out by auto
  from a b c oauth_request [OF assms(1)] show ?thesis by blast
qed

lemma promise_extend_update:
  assumes "Graph_get nd g ''/oauth/access_token'' (Some (exchange_params g params)) = Inr opts"
    and "callbacks (deliver nd GET ev) = [(err, res)]"
  shows "(\<not> truthy err \<and> res \<noteq> JNull \<and> res \<noteq> JUndefined \<longrightarrow>
            p_graph_after (Promise_extendAccessToken nd g params ev)
              = (if truthy (obj_get params ''access_token'')
                 then g\<lparr>accessToken := get_prop res ''access_token''\<rparr> else g)
          \<and> result (Promise_extendAccessToken nd g params ev) = Resolved res)
       \<and> (truthy err \<longrightarrow>
            p_graph_after (Promise_extendAccessToken nd g params ev) = g
          \<and> result (Promise_extendAccessToken nd g params ev) = Rejected err)"
  using assms
  by (simp add: Promise_extendAccessToken_def Let_def promisify_def
        exchange_keeps_access_token set_token_from_def)

text \<open>
  Claim C6 says that the promise facade updates the configured token under the same
  condition as \<^verbatim>\<open>Graph.extendAccessToken\<close>.  The code does the opposite.  After a
  successful exchange, \<^verbatim>\<open>Graph.extendAccessToken\<close> stores the response's token exactly
  when the caller's parameters carry no access token (\<^verbatim>\<open>!err && !params.access_token\<close>),
  and \<^verbatim>\<open>PromiseGraph.extendAccessToken\<close>, whose test \<^verbatim>\<open>params.access_token\<close> lacks
  the negation, stores it exactly when they carry one.  After a failed exchange neither
  changes the token; the callback receives the error and the promise is rejected with it.
\<close>

theorem extend_facades_update:
  assumes "Graph_get nd g ''/oauth/access_token'' (Some (exchange_params g params)) = Inr opts"
    and "callbacks (deliver nd GET ev) = [(err, res)]"
  shows "(\<not> truthy err \<and> res \<noteq> JNull \<and> res \<noteq> JUndefined \<longrightarrow>
            graph_after (extendAccessToken nd g params ev)
              = (if truthy (obj_get params ''access_token'')
                 then g else g\<lparr>accessToken := get_prop res ''access_token''\<rparr>)
          \<and> reported (extendAccessToken nd g params ev) = [(err, res)]
          \<and> p_graph_after (Promise_extendAccessToken nd g params ev)
              = (if truthy (obj_get params ''access_token'')
                 then g\<lparr>accessToken := get_prop res ''access_token''\<rparr> else g)
          \<and> result (Promise_extendAccessToken nd g params ev) = Resolved res)
       \<and> (truthy err \<longrightarrow>
            graph_after (extendAccessToken nd g params ev) = g
          \<and> reported (extendAccessToken nd g params ev) = [(err, res)]
          \<and> p_graph_after (Promise_extendAccessToken nd g params ev) = g
          \<and> result (Promise_extendAccessToken nd g params ev) = Rejected err)"
  using extend_token_update [OF assms] promise_extend_update [OF assms]
  by (cases "truthy (obj_get params ''access_token'')") simp_all

theorem extend_facades_update_witness:
  "callbacks (deliver sample_node GET token_response)
     = [(JNull, JObj [(''access_token'', JStr ''new''), (''expires'', JStr ''5'')])]
   \<and> \<not> truthy (obj_get [(''client_id'', JStr ''1''), (''client_secret'', JStr ''x'')] ''access_token'')
   \<and> graph_after (extendAccessToken sample_node (new_Graph\<lparr>accessToken := JStr ''cur''\<rparr>)
                    [(''client_id'', JStr ''1''), (''client_secret'', JStr ''x'')] token_response)
       = new_Graph\<lparr>accessToken := JStr ''new''\<rparr>
   \<and> p_graph_after (Promise_extendAccessToken sample_node (new_Graph\<lparr>accessToken := JStr ''cur''\<rparr>)
                    [(''client_id'', JStr ''1''), (''client_secret'', JStr ''x'')] token_response)
       = new_Graph\<lparr>accessToken := JStr ''cur''\<rparr>
   \<and> result (Promise_extendAccessToken sample_node (new_Graph\<lparr>accessToken := JStr ''cur''\<rparr>)
                    [(''client_id'', JStr ''1''), (''client_secret'', JStr ''x'')] token_response)
       = Resolved (JObj [(''access_token'', JStr ''new''), (''expires'', JStr ''5'')])"
proof -
  let ?g = "new_Graph\<lparr>accessToken := JStr ''cur''\<rparr>"
  let ?ps = "[(''client_id'', JStr ''1''), (''client_secret'', JStr ''x'')]"
  let ?res = "JObj [(''access_token'', JStr ''new''), (''expires'', JStr ''5'')]"
  have req: "Graph_get sample_node ?g ''/oauth/access_token'' (Some (exchange_params ?g ?ps))
      = Inr [(''encoding'', JStr ''utf-8''), (''method'', JStr ''GET''),
             (''uri'', JStr ''https://graph.facebook.com/v2.9/oauth/access_token?client_id=1&client_secret=x&grant_type=fb_exchange_token&fb_exchange_token=cur&access_token=cur''),
             (''followRedirect'', JBool False)]"
    by code_simp
  have cb: "callbacks (deliver sample_node GET token_response) = [(JNull, ?res)]"
    by code_simp
  have pre: "\<not> truthy JNull \<and> ?res \<noteq> JNull \<and> ?res \<noteq> JUndefined"
    by simp
  have np: "\<not> truthy (obj_get ?ps ''access_token'')"
    by (simp add: obj_get_def)
  have upd: "?g\<lparr>accessToken := get_prop ?res ''access_token''\<rparr> = new_Graph\<lparr>accessToken := JStr ''new''\<rparr>"
    by (simp add: obj_get_def)
  from extend_facades_update [OF req cb, THEN conjunct1, THEN mp, OF pre] np upd
  have "graph_after (extendAccessToken sample_node ?g ?ps token_response)
          = new_Graph\<lparr>accessToken := JStr ''new''\<rparr>
        \<and> p_graph_after (Promise_extendAccessToken sample_node ?g ?ps token_response) = ?g
        \<and> result (Promise_extendAccessToken sample_node ?g ?ps token_response) = Resolved ?res"
    by simp
  with cb np show ?thesis by blast
qed

text \<open>
  The same divergence on both kinds of input, evaluated: with a token in the parameters
  the callback facade keeps the configured token and the promise facade replaces it;
  without one it is the other way round.
\<close>

lemma extend_facades_evaluated:
  "graph_after (extendAccessToken sample_node (new_Graph\<lparr>accessToken := JStr ''cur''\<rparr>)
                  [(''client_id'', JStr ''1''), (''access_token'', JStr ''old'')] token_response)
     = new_Graph\<lparr>accessToken := JStr ''cur''\<rparr>
   \<and> p_graph_after (Promise_extendAccessToken sample_node (new_Graph\<lparr>accessToken := JStr ''cur''\<rparr>)
                  [(''client_id'', JStr ''1''), (''access_token'', JStr ''old'')] token_response)
     = new_Graph\<lparr>accessToken := JStr ''new''\<rparr>
   \<and> graph_after (extendAccessToken sample_node (new_Graph\<lparr>accessToken := JStr ''cur''\<rparr>)
                  [(''client_id'', JStr ''1'')] token_response)
     = new_Graph\<lparr>accessToken := JStr ''new''\<rparr>
   \<and> p_graph_after (Promise_extendAccessToken sample_node (new_Graph\<lparr>accessToken := JStr ''cur''\<rparr>)
                  [(''client_id'', JStr ''1'')] token_response)
     = new_Graph\<lparr>accessToken := JStr ''cur''\<rparr>"
  by code_simp

end
